theory Spec2Isabelle
  imports Complex_Main "HOL-Library.Multiset"
begin

section \<open>Data model of \<open>stopes/modules/speech/postprocess.py\<close>\<close>

text \<open>
  The module filters the lines of a mining result on score and audio length, groups
  them by audio file, removes overlapping segments file by file, and reports the files
  whose share of kept lines is abnormally low.

  A Python float is modelled as the real number it denotes: the scores, offsets and
  ratios compared below are compared exactly. The floating-point operations of the
  retention statistics, which round, are a parameter of the model.
\<close>

text \<open>
  Modelled from the spec: \<open>Audio\<close>, \<open>Text\<close>, \<open>MiningLineResult\<close> and
  \<open>IntersectMethods\<close> are declared in \<open>stopes/modules/speech/utils.py\<close>, which
  is imported by the source and not part of it. An audio span has the three attributes
  the source reads (\<open>path\<close>, \<open>start\<close>, \<open>duration\<close>); a text item has content and
  no temporal extent, so reading one of these attributes from it raises. Of the
  enumeration of overlap methods the source names \<open>FRACTION\<close>, its default;
  \<open>IOU\<close> stands for the other member. Nothing below depends on the members.
\<close>

record Audio =
  path :: string
  start :: real
  duration :: real

datatype Item = AudioItem Audio | TextItem string

record MiningLineResult =
  score :: real
  src :: Item
  tgt :: Item

datatype IntersectMethods = FRACTION | IOU

datatype error =
    EmptyFileError string
  | NoAudioError string
  | AttributeError
  | ZeroDivisionError
  | IterationOver0dError
  | DecodeError

record Requirements =
  nodes :: nat
  tasks_per_node :: nat
  gpus_per_node :: nat
  cpus_per_task :: nat
  timeout_min :: nat

record PostProcessAudioConfig =
  output_dir :: string
  output_filename :: string
  mining_result_path :: string
  min_audio_length :: int
  mining_threshold :: real
  max_overlap :: real
  overlap_method :: IntersectMethods
  sampling_factor :: "int option"
  requirements :: Requirements

text \<open>The attribute name held in \<open>self.src_attr\<close>: the string "src" or "tgt".\<close>

datatype attr_name = SrcAttr | TgtAttr

text \<open>
  The fields \<open>__init__\<close> sets on the module. \<open>file_lines\<close> counts the lines read,
  \<open>src_attr\<close> starts as "src", the two thresholds are copied from the configuration.
  The output directory and the files written are left out.
\<close>

record PostProcessAudioModule =
  config :: PostProcessAudioConfig
  src_attr :: attr_name
  file_lines :: nat
  module_mining_threshold :: real
  module_min_audio_length :: int

definition init :: "PostProcessAudioConfig \<Rightarrow> PostProcessAudioModule" where
  "init cfg = \<lparr>config = cfg, src_attr = SrcAttr, file_lines = 0,
     module_mining_threshold = mining_threshold cfg,
     module_min_audio_length = min_audio_length cfg\<rparr>"

type_synonym Sources = "(string \<times> MiningLineResult list) list"

record RetentionStat =
  starting_lines :: nat
  kept_lines :: nat

type_synonym StatsDict = "(string \<times> RetentionStat) list"

text \<open>
  The two collaborators from \<open>utils.py\<close> are parameters of the model:
  \<open>split_mining_line\<close> decodes a raw line (with an optional sampling factor), and
  \<open>None\<close> stands for any exception it raises on a line it cannot decode;
  \<open>compute_overlap\<close> maps two audio spans and a method to a number.
\<close>

type_synonym Parser = "string \<Rightarrow> int option \<Rightarrow> MiningLineResult option"
type_synonym Overlap = "Audio \<Rightarrow> Audio \<Rightarrow> IntersectMethods \<Rightarrow> real"

section \<open>Attribute access\<close>

fun item_path :: "Item \<Rightarrow> error + string" where
  "item_path (AudioItem a) = Inr (path a)"
| "item_path (TextItem t) = Inl AttributeError"

fun item_start :: "Item \<Rightarrow> error + real" where
  "item_start (AudioItem a) = Inr (start a)"
| "item_start (TextItem t) = Inl AttributeError"

fun item_duration :: "Item \<Rightarrow> error + real" where
  "item_duration (AudioItem a) = Inr (duration a)"
| "item_duration (TextItem t) = Inl AttributeError"

fun is_audio :: "Item \<Rightarrow> bool" where
  "is_audio (AudioItem a) = True"
| "is_audio (TextItem t) = False"

text \<open>\<open>load_input\<close>: \<open>getattr(mining_result, self.src_attr)\<close>.\<close>

definition load_input :: "PostProcessAudioModule \<Rightarrow> MiningLineResult \<Rightarrow> Item" where
  "load_input self mining_result =
     (case src_attr self of SrcAttr \<Rightarrow> src mining_result | TgtAttr \<Rightarrow> tgt mining_result)"

section \<open>Loading and the threshold filter\<close>

fun which_object_audio :: "Item \<Rightarrow> Item \<Rightarrow> string \<Rightarrow> error + attr_name" where
  "which_object_audio (AudioItem a) t line = Inr SrcAttr"
| "which_object_audio (TextItem s) (AudioItem a) line = Inr TgtAttr"
| "which_object_audio (TextItem s) (TextItem t) line = Inl (NoAudioError line)"

text \<open>
  \<open>line_passes_thresholds\<close>: Python's \<open>and\<close> reads the duration only when the score
  test holds.
\<close>

definition line_passes_thresholds ::
  "PostProcessAudioModule \<Rightarrow> MiningLineResult \<Rightarrow> error + bool" where
  "line_passes_thresholds self line =
     (if score line > module_mining_threshold self
      then (case item_duration (load_input self line) of
              Inl e \<Rightarrow> Inl e
            | Inr d \<Rightarrow> Inr (d > real_of_int (module_min_audio_length self)))
      else Inr False)"

text \<open>
  The dictionary \<open>sources\<close> keeps its keys in insertion order: a known path gets the
  record appended to its list, a new path is added at the end.
\<close>

definition sources_add :: "string \<Rightarrow> MiningLineResult \<Rightarrow> Sources \<Rightarrow> Sources" where
  "sources_add p mining_result sources =
     (if p \<in> set (map fst sources)
      then map (\<lambda>(k, v). if k = p then (k, v @ [mining_result]) else (k, v)) sources
      else sources @ [(p, [mining_result])])"

text \<open>
  One turn of the \<open>while line:\<close> loop on a line that is not empty. The loop state
  is the module, the counter \<open>passing_filters\<close> and \<open>sources\<close>.
\<close>

definition load_step :: "Parser \<Rightarrow> string \<Rightarrow> PostProcessAudioModule \<times> nat \<times> Sources
    \<Rightarrow> error + (PostProcessAudioModule \<times> nat \<times> Sources)" where
  "load_step split_mining_line line st =
     (case st of (self, passing_filters, sources) \<Rightarrow>
        let self1 = self\<lparr>file_lines := file_lines self + 1\<rparr> in
        (case split_mining_line line None of
           None \<Rightarrow> Inl DecodeError
         | Some mining_result \<Rightarrow>
            (case item_path (load_input self1 mining_result) of
               Inl e \<Rightarrow> Inl e
             | Inr p \<Rightarrow>
                (case line_passes_thresholds self1 mining_result of
                   Inl e \<Rightarrow> Inl e
                 | Inr passes \<Rightarrow>
                     if passes
                     then Inr (self1, passing_filters + 1, sources_add p mining_result sources)
                     else Inr (self1, passing_filters, sources)))))"

text \<open>
  The loop itself. The argument list is the current line followed by the lines
  \<open>readline\<close> has still to return; at the end of the file \<open>readline\<close> returns the
  empty string and the loop stops.
\<close>

fun load_loop :: "Parser \<Rightarrow> string list \<Rightarrow> PostProcessAudioModule \<times> nat \<times> Sources
    \<Rightarrow> error + (PostProcessAudioModule \<times> nat \<times> Sources)" where
  "load_loop split_mining_line [] st = Inr st"
| "load_loop split_mining_line (line # f) st =
     (if line = [] then Inr st
      else case load_step split_mining_line line st of
             Inl e \<Rightarrow> Inl e
           | Inr st1 \<Rightarrow> load_loop split_mining_line f st1)"

text \<open>
  \<open>load_file\<close> on the lines of the mining result. The first line is decoded with the
  configured sampling factor to find which item is audio, then every line, the first
  one included, is decoded again without it.
\<close>

definition load_file :: "Parser \<Rightarrow> string list \<Rightarrow> PostProcessAudioModule
    \<Rightarrow> error + (PostProcessAudioModule \<times> Sources)" where
  "load_file split_mining_line f self =
     (case f of
        [] \<Rightarrow> Inl (EmptyFileError (mining_result_path (config self)))
      | line # rest \<Rightarrow>
          if line = [] then Inl (EmptyFileError (mining_result_path (config self)))
          else let self1 = self\<lparr>file_lines := file_lines self + 1\<rparr> in
            (case split_mining_line line (sampling_factor (config self1)) of
               None \<Rightarrow> Inl DecodeError
             | Some mining_result \<Rightarrow>
                (case which_object_audio (src mining_result) (tgt mining_result) line of
                   Inl e \<Rightarrow> Inl e
                 | Inr a \<Rightarrow>
                    (case load_loop split_mining_line (line # rest)
                            (self1\<lparr>src_attr := a\<rparr>, 0, []) of
                       Inl e \<Rightarrow> Inl e
                     | Inr (self2, passing_filters, sources) \<Rightarrow> Inr (self2, sources)))))"

section \<open>Deduplication\<close>

text \<open>Evaluating a list of results in order stops at the first one that raises.\<close>

fun collect :: "(error + 'a) list \<Rightarrow> error + 'a list" where
  "collect [] = Inr []"
| "collect (Inl e # rs) = Inl e"
| "collect (Inr v # rs) = (case collect rs of Inl e \<Rightarrow> Inl e | Inr vs \<Rightarrow> Inr (v # vs))"

text \<open>
  \<open>sorted(line_list, key=...)\<close>: the key of every element is computed first, then the
  elements are sorted on their keys by a stable sort.
\<close>

definition py_sorted :: "('a \<Rightarrow> error + real) \<Rightarrow> 'a list \<Rightarrow> error + 'a list" where
  "py_sorted key xs =
     (case collect (map key xs) of
        Inl e \<Rightarrow> Inl e
      | Inr ks \<Rightarrow> Inr (map snd (sort_key fst (zip ks xs))))"

text \<open>
  \<open>self.compute_overlap\<close> hands the two loaded items and the configured method to the
  collaborator, which reads the temporal attributes of both.
\<close>

fun module_compute_overlap ::
  "Overlap \<Rightarrow> PostProcessAudioModule \<Rightarrow> Item \<Rightarrow> Item \<Rightarrow> error + real" where
  "module_compute_overlap compute_overlap self (AudioItem audio1) (AudioItem audio2) =
     Inr (compute_overlap audio1 audio2 (overlap_method (config self)))"
| "module_compute_overlap compute_overlap self (AudioItem audio1) (TextItem t) =
     Inl AttributeError"
| "module_compute_overlap compute_overlap self (TextItem t) audio2 = Inl AttributeError"

text \<open>
  One turn of \<open>for line in line_list\<close>. \<open>kept_lines[-1]\<close> is the element at index
  \<open>len(kept_lines) - 1\<close>, read and assigned only when the list is not empty.
\<close>

definition dedup_step :: "Overlap \<Rightarrow> PostProcessAudioModule \<Rightarrow> MiningLineResult list
    \<Rightarrow> MiningLineResult \<Rightarrow> error + MiningLineResult list" where
  "dedup_step compute_overlap self kept line =
     (if length kept = 0 then Inr (kept @ [line])
      else
        case module_compute_overlap compute_overlap self
               (load_input self (kept ! (length kept - 1))) (load_input self line) of
          Inl e \<Rightarrow> Inl e
        | Inr overlap \<Rightarrow>
            if overlap > max_overlap (config self)
            then (if score (kept ! (length kept - 1)) < score line
                  then Inr (kept[length kept - 1 := line])
                  else Inr kept)
            else Inr (kept @ [line]))"

fun dedup_loop :: "Overlap \<Rightarrow> PostProcessAudioModule \<Rightarrow> MiningLineResult list
    \<Rightarrow> MiningLineResult list \<Rightarrow> error + MiningLineResult list" where
  "dedup_loop compute_overlap self kept [] = Inr kept"
| "dedup_loop compute_overlap self kept (line # line_list) =
     (case dedup_step compute_overlap self kept line of
        Inl e \<Rightarrow> Inl e
      | Inr kept1 \<Rightarrow> dedup_loop compute_overlap self kept1 line_list)"

text \<open>\<open>filtering_stats[path] = ...\<close>: assignment to a dictionary key.\<close>

definition stats_set :: "string \<Rightarrow> RetentionStat \<Rightarrow> StatsDict \<Rightarrow> StatsDict" where
  "stats_set p st stats =
     (if p \<in> set (map fst stats)
      then map (\<lambda>(k, v). if k = p then (k, st) else (k, v)) stats
      else stats @ [(p, st)])"

text \<open>
  The body of the loop over \<open>sources.items()\<close> for one path: sort, scan, and the
  statistics of the group.
\<close>

definition postprocess_group :: "Overlap \<Rightarrow> PostProcessAudioModule
    \<Rightarrow> MiningLineResult list \<Rightarrow> error + (MiningLineResult list \<times> RetentionStat)" where
  "postprocess_group compute_overlap self line_list =
     (case py_sorted (\<lambda>x. item_start (load_input self x)) line_list of
        Inl e \<Rightarrow> Inl e
      | Inr sorted_list \<Rightarrow>
         (case dedup_loop compute_overlap self [] sorted_list of
            Inl e \<Rightarrow> Inl e
          | Inr kept \<Rightarrow>
              Inr (kept, \<lparr>starting_lines = length sorted_list, kept_lines = length kept\<rparr>)))"

fun postprocess_loop :: "Overlap \<Rightarrow> PostProcessAudioModule \<Rightarrow> Sources
    \<Rightarrow> MiningLineResult list \<times> StatsDict \<Rightarrow> error + (MiningLineResult list \<times> StatsDict)" where
  "postprocess_loop compute_overlap self [] acc = Inr acc"
| "postprocess_loop compute_overlap self ((p, line_list) # rest) (valid_audio, filtering_stats) =
     (case postprocess_group compute_overlap self line_list of
        Inl e \<Rightarrow> Inl e
      | Inr (kept, st) \<Rightarrow>
          postprocess_loop compute_overlap self rest
            (valid_audio @ kept, stats_set p st filtering_stats))"

definition postprocess :: "Overlap \<Rightarrow> PostProcessAudioModule \<Rightarrow> Sources
    \<Rightarrow> error + (MiningLineResult list \<times> StatsDict)" where
  "postprocess compute_overlap self sources = postprocess_loop compute_overlap self sources ([], [])"

section \<open>Retention statistics\<close>

text \<open>
  The arithmetic of \<open>run\<close> is binary floating point. A float is modelled as the real
  number it denotes and comparisons of floats are exact. The operations that round are
  parameters of the model: the division \<open>float(kept) / starting\<close> of two counts,
  \<open>np.mean\<close>, \<open>np.std\<close>, and the product and the difference of
  \<open>avg - sigmas * std\<close>. What is proved for every such arithmetic holds for the
  one of the machine.
\<close>

record FloatOps =
  fl_div :: "nat \<Rightarrow> nat \<Rightarrow> real"
  fl_mean :: "real list \<Rightarrow> real"
  fl_std :: "real list \<Rightarrow> real"
  fl_mul :: "real \<Rightarrow> real \<Rightarrow> real"
  fl_sub :: "real \<Rightarrow> real \<Rightarrow> real"

text \<open>
  \<open>np.argwhere\<close> on a one-dimensional array gives one row \<open>[i]\<close> for each true
  position; \<open>squeeze\<close> drops every axis of length one, so exactly one row becomes a
  0-d array, which cannot be iterated over.
\<close>

definition np_argwhere :: "bool list \<Rightarrow> nat list list" where
  "np_argwhere bs = map (\<lambda>i. [i]) (filter (\<lambda>i. bs ! i) [0..<length bs])"

datatype ndarray = Array0d nat | Array1d "nat list"

definition squeeze :: "nat list list \<Rightarrow> ndarray" where
  "squeeze rows = (if length rows = 1 then Array0d (hd (hd rows)) else Array1d (map hd rows))"

fun iterate :: "ndarray \<Rightarrow> error + nat list" where
  "iterate (Array0d i) = Inl IterationOver0dError"
| "iterate (Array1d idxs) = Inr idxs"

definition sigmas :: real where
  "sigmas = 3"

definition kept_ratio :: "FloatOps \<Rightarrow> RetentionStat \<Rightarrow> error + real" where
  "kept_ratio np st =
     (if starting_lines st = 0 then Inl ZeroDivisionError
      else Inr (fl_div np (kept_lines st) (starting_lines st)))"

text \<open>
  Lines 237 to 251 of \<open>run\<close>: the paths, their ratios of kept lines, and the paths
  whose ratio is below the mean minus \<open>sigmas\<close> standard deviations.
\<close>

definition below_sigs_of :: "FloatOps \<Rightarrow> StatsDict \<Rightarrow> error + string list" where
  "below_sigs_of np filtering_stats =
     (let paths = map fst filtering_stats in
      case collect (map (\<lambda>(p, st). kept_ratio np st) filtering_stats) of
        Inl e \<Rightarrow> Inl e
      | Inr percentage_kept \<Rightarrow>
          let avg = fl_mean np percentage_kept; std = fl_std np percentage_kept in
          (case iterate (squeeze (np_argwhere
                   (map (\<lambda>r. r < fl_sub np avg (fl_mul np sigmas std)) percentage_kept))) of
             Inl e \<Rightarrow> Inl e
           | Inr idxs \<Rightarrow> Inr (map (\<lambda>i. paths ! i) idxs)))"

record RunResult =
  valid_lines :: "MiningLineResult list"
  run_stats :: StatsDict
  below_sigs :: "string list"
  total_src_time :: real

fun sum_durations :: "PostProcessAudioModule \<Rightarrow> MiningLineResult list \<Rightarrow> real \<Rightarrow> error + real" where
  "sum_durations self [] t = Inr t"
| "sum_durations self (valid # rest) t =
     (case item_duration (load_input self valid) of
        Inl e \<Rightarrow> Inl e
      | Inr d \<Rightarrow> sum_durations self rest (t + d))"

text \<open>
  \<open>run\<close>: load, deduplicate, write the kept lines (the lines written are
  \<open>valid_lines\<close>), compute the outliers and the remaining audio time.
\<close>

definition run :: "FloatOps \<Rightarrow> Parser \<Rightarrow> Overlap \<Rightarrow> string list
    \<Rightarrow> PostProcessAudioModule \<Rightarrow> error + RunResult" where
  "run np split_mining_line compute_overlap f self =
     (case load_file split_mining_line f self of
        Inl e \<Rightarrow> Inl e
      | Inr (self1, sources) \<Rightarrow>
         (case postprocess compute_overlap self1 sources of
            Inl e \<Rightarrow> Inl e
          | Inr (valid, filtering_stats) \<Rightarrow>
             (case below_sigs_of np filtering_stats of
                Inl e \<Rightarrow> Inl e
              | Inr below \<Rightarrow>
                 (case sum_durations self1 valid 0 of
                    Inl e \<Rightarrow> Inl e
                  | Inr t \<Rightarrow>
                      Inr \<lparr>valid_lines = valid, run_stats = filtering_stats,
                           below_sigs = below, total_src_time = t\<rparr>))))"

section \<open>The deduplicator as specified\<close>

text \<open>The audio span of an item that is audio (nothing is said of a text item).\<close>

fun the_audio :: "Item \<Rightarrow> Audio" where
  "the_audio (AudioItem a) = a"

definition audio_of :: "PostProcessAudioModule \<Rightarrow> MiningLineResult \<Rightarrow> Audio" where
  "audio_of self line = the_audio (load_input self line)"

definition start_key :: "PostProcessAudioModule \<Rightarrow> MiningLineResult \<Rightarrow> real" where
  "start_key self line = start (audio_of self line)"

definition overlap_of :: "Overlap \<Rightarrow> PostProcessAudioModule \<Rightarrow> MiningLineResult
    \<Rightarrow> MiningLineResult \<Rightarrow> real" where
  "overlap_of compute_overlap self k r =
     compute_overlap (audio_of self k) (audio_of self r) (overlap_method (config self))"

text \<open>
  The scan in the words of the specification. A new record \<open>r\<close> meets the last kept
  record \<open>k\<close> only: with an overlap above the threshold the better score of the two
  stays (the kept one on a tie), otherwise both stay. The records kept before \<open>k\<close>
  are not read, and a record left out is not seen again.
\<close>

definition spec_resolve :: "Overlap \<Rightarrow> PostProcessAudioModule \<Rightarrow> MiningLineResult
    \<Rightarrow> MiningLineResult \<Rightarrow> MiningLineResult list" where
  "spec_resolve compute_overlap self k r =
     (if overlap_of compute_overlap self k r \<le> max_overlap (config self) then [k, r]
      else if score k < score r then [r]
      else [k])"

fun spec_scan :: "Overlap \<Rightarrow> PostProcessAudioModule \<Rightarrow> MiningLineResult list
    \<Rightarrow> MiningLineResult list \<Rightarrow> MiningLineResult list" where
  "spec_scan compute_overlap self kept [] = kept"
| "spec_scan compute_overlap self kept (r # rs) =
     spec_scan compute_overlap self
       (if kept = [] then [r]
        else butlast kept @ spec_resolve compute_overlap self (last kept) r) rs"

text \<open>
  What a stable sort on a key returns: the same elements, in ascending key order, with
  the elements of equal key in their input order.
\<close>

definition stable_sorted :: "('a \<Rightarrow> real) \<Rightarrow> 'a list \<Rightarrow> 'a list \<Rightarrow> bool" where
  "stable_sorted key xs ys \<longleftrightarrow>
     mset ys = mset xs \<and> sorted (map key ys) \<and>
     (\<forall>k \<in> set ys. filter (\<lambda>x. key k = key x) ys = filter (\<lambda>x. key k = key x) xs)"

text \<open>
  A run of the deduplicator described as a relation, with the sort left to any stable
  sorting procedure: a group yields its kept records and statistics, and the groups are
  taken in the order of the dictionary.
\<close>

inductive group_run :: "Overlap \<Rightarrow> PostProcessAudioModule \<Rightarrow> MiningLineResult list
    \<Rightarrow> MiningLineResult list \<times> RetentionStat \<Rightarrow> bool" where
  group_runI:
    "\<lbrakk>\<forall>x \<in> set line_list. is_audio (load_input self x);
      stable_sorted (start_key self) line_list sorted_list;
      dedup_loop compute_overlap self [] sorted_list = Inr kept\<rbrakk>
     \<Longrightarrow> group_run compute_overlap self line_list
           (kept, \<lparr>starting_lines = length sorted_list, kept_lines = length kept\<rparr>)"

inductive postprocess_run :: "Overlap \<Rightarrow> PostProcessAudioModule \<Rightarrow> Sources
    \<Rightarrow> MiningLineResult list \<times> StatsDict \<Rightarrow> MiningLineResult list \<times> StatsDict \<Rightarrow> bool" where
  run_done: "postprocess_run compute_overlap self [] acc acc"
| run_group:
    "\<lbrakk>group_run compute_overlap self line_list (kept, st);
      postprocess_run compute_overlap self rest
        (valid_audio @ kept, stats_set p st filtering_stats) out\<rbrakk>
     \<Longrightarrow> postprocess_run compute_overlap self ((p, line_list) # rest)
           (valid_audio, filtering_stats) out"

text \<open>
  The outliers as specified: the paths whose ratio of kept lines is below the mean
  minus \<open>k\<close> standard deviations, for a multiplier \<open>k\<close>, all computed in the
  floating-point arithmetic of the run.
\<close>

definition ratio :: "FloatOps \<Rightarrow> RetentionStat \<Rightarrow> real" where
  "ratio np st = fl_div np (kept_lines st) (starting_lines st)"

definition spec_outliers :: "FloatOps \<Rightarrow> real \<Rightarrow> StatsDict \<Rightarrow> string list" where
  "spec_outliers np k stats =
     (let rs = map (\<lambda>(p, st). ratio np st) stats;
          threshold = fl_sub np (fl_mean np rs) (fl_mul np k (fl_std np rs))
      in map fst (filter (\<lambda>(p, st). ratio np st < threshold) stats))"

text \<open>
  The arithmetic without rounding: the exact quotient, mean, population standard
  deviation, product and difference. It is the arithmetic of the machine on inputs where
  no operation rounds, and the reference against which an arithmetic is accurate.
\<close>

definition exact_mean :: "real list \<Rightarrow> real" where
  "exact_mean xs = sum_list xs / real (length xs)"

definition exact_std :: "real list \<Rightarrow> real" where
  "exact_std xs = sqrt (exact_mean (map (\<lambda>x. \<bar>x - exact_mean xs\<bar> ^ 2) xs))"

definition exact_arith :: FloatOps where
  "exact_arith = \<lparr>fl_div = (\<lambda>k s. real k / real s), fl_mean = exact_mean,
     fl_std = exact_std, fl_mul = (\<lambda>a b. a * b), fl_sub = (\<lambda>a b. a - b)\<rparr>"

definition exact_ratio :: "RetentionStat \<Rightarrow> real" where
  "exact_ratio st = real (kept_lines st) / real (starting_lines st)"

definition exact_outliers :: "real \<Rightarrow> StatsDict \<Rightarrow> string list" where
  "exact_outliers k stats =
     (let rs = map (\<lambda>(p, st). exact_ratio st) stats in
      map fst (filter (\<lambda>(p, st). exact_ratio st < exact_mean rs - k * exact_std rs) stats))"

text \<open>
  An arithmetic is accurate to \<open>eps\<close> on a list of ratios when the mean, the standard
  deviation, the product by \<open>sigmas\<close> and the difference it computes for the list are
  each within \<open>eps\<close> of the exact result on the same arguments.
\<close>

definition accurate_at :: "FloatOps \<Rightarrow> real \<Rightarrow> real list \<Rightarrow> bool" where
  "accurate_at np eps rs \<longleftrightarrow>
     \<bar>fl_mean np rs - exact_mean rs\<bar> \<le> eps \<and>
     \<bar>fl_std np rs - exact_std rs\<bar> \<le> eps \<and>
     \<bar>fl_mul np sigmas (fl_std np rs) - sigmas * fl_std np rs\<bar> \<le> eps \<and>
     \<bar>fl_sub np (fl_mean np rs) (fl_mul np sigmas (fl_std np rs))
        - (fl_mean np rs - fl_mul np sigmas (fl_std np rs))\<bar> \<le> eps"



section \<open>Sample inputs\<close>

text \<open>
  Modelled from the spec: the fraction method of \<open>compute_overlap\<close> (in
  \<open>utils.py\<close>), the length of the intersection of the two spans over the length of
  the shorter one, and 0 for a span of length 0.
\<close>

definition fraction_overlap :: Overlap where
  "fraction_overlap a b method =
     (let inter = max 0 (min (start a + duration a) (start b + duration b)
                          - max (start a) (start b));
          ref = min (duration a) (duration b)
      in if ref \<le> 0 then 0 else inter / ref)"

definition sample_config :: PostProcessAudioConfig where
  "sample_config = \<lparr>output_dir = ''out'', output_filename = ''kept.tsv'',
     mining_result_path = ''mined.tsv'', min_audio_length = 2, mining_threshold = 0,
     max_overlap = 1/5, overlap_method = FRACTION, sampling_factor = None,
     requirements = \<lparr>nodes = 1, tasks_per_node = 1, gpus_per_node = 0,
       cpus_per_task = 1, timeout_min = 600\<rparr>\<rparr>"

definition audio_line :: "real \<Rightarrow> string \<Rightarrow> real \<Rightarrow> real \<Rightarrow> MiningLineResult" where
  "audio_line sc p st du =
     \<lparr>score = sc, src = AudioItem \<lparr>path = p, start = st, duration = du\<rparr>,
      tgt = TextItem ''text''\<rparr>"

definition text_line :: "real \<Rightarrow> MiningLineResult" where
  "text_line sc = \<lparr>score = sc, src = TextItem ''one'', tgt = TextItem ''two''\<rparr>"

text \<open>
  A decoder given by a finite table of lines. A sampling factor rescales the offsets and
  lengths of the audio items from sample counts to milliseconds.
\<close>

fun rescale :: "int \<Rightarrow> Item \<Rightarrow> Item" where
  "rescale k (AudioItem a) =
     AudioItem (a\<lparr>start := start a / real_of_int k, duration := duration a / real_of_int k\<rparr>)"
| "rescale k (TextItem t) = TextItem t"

definition table_parser :: "(string \<times> MiningLineResult) list \<Rightarrow> Parser" where
  "table_parser tbl line sf =
     (case map_of tbl line of
        None \<Rightarrow> None
      | Some m \<Rightarrow>
          Some (case sf of
                  None \<Rightarrow> m
                | Some k \<Rightarrow> m\<lparr>src := rescale k (src m), tgt := rescale k (tgt m)\<rparr>))"


definition sample_table :: "(string \<times> MiningLineResult) list" where
  "sample_table =
     [(''l1'', audio_line (1/2) ''a.wav'' 0 20),
      (''l2'', audio_line (9/10) ''a.wav'' 5 5),
      (''l3'', audio_line (4/5) ''a.wav'' 12 6),
      (''l4'', audio_line (7/10) ''b.wav'' 3 4),
      (''l5'', audio_line (7/10) ''b.wav'' 0 1),
      (''t1'', text_line 1)]"

definition sample_lines :: "string list" where
  "sample_lines = [''l3'', ''l1'', ''l5'', ''l2'', ''l4'']"

definition sample_sources :: Sources where
  "sample_sources =
     [(''a.wav'', [audio_line (4/5) ''a.wav'' 12 6, audio_line (1/2) ''a.wav'' 0 20,
                   audio_line (9/10) ''a.wav'' 5 5]),
      (''b.wav'', [audio_line (7/10) ''b.wav'' 3 4])]"

definition stat :: "nat \<Rightarrow> nat \<Rightarrow> RetentionStat" where
  "stat s k = \<lparr>starting_lines = s, kept_lines = k\<rparr>"

definition sample_valid :: "MiningLineResult list" where
  "sample_valid =
     [audio_line (9/10) ''a.wav'' 5 5, audio_line (4/5) ''a.wav'' 12 6,
      audio_line (7/10) ''b.wav'' 3 4]"

definition sample_stats :: StatsDict where
  "sample_stats = [(''a.wav'', stat 3 2), (''b.wav'', stat 1 1)]"

section \<open>Invariants of the loops\<close>

text \<open>
  Two module states filter alike when they agree on the audio role and on the two
  thresholds; the line counter plays no part.
\<close>

definition same_filter :: "PostProcessAudioModule \<Rightarrow> PostProcessAudioModule \<Rightarrow> bool" where
  "same_filter a b \<longleftrightarrow> src_attr a = src_attr b \<and>
     module_mining_threshold a = module_mining_threshold b \<and>
     module_min_audio_length a = module_min_audio_length b"

text \<open>
  A record is in its place under key \<open>k\<close> when its loaded item is an audio span of
  path \<open>k\<close> and it passes the thresholds. The dictionary is in order when its keys
  are distinct, no group is empty and every record is in its place.
\<close>

definition group_ok :: "PostProcessAudioModule \<Rightarrow> string \<Rightarrow> MiningLineResult \<Rightarrow> bool" where
  "group_ok self k r \<longleftrightarrow>
     (\<exists>a. load_input self r = AudioItem a \<and> path a = k) \<and>
     line_passes_thresholds self r = Inr True"

definition sources_ok :: "PostProcessAudioModule \<Rightarrow> Sources \<Rightarrow> bool" where
  "sources_ok self sources \<longleftrightarrow>
     distinct (map fst sources) \<and>
     (\<forall>k rs. (k, rs) \<in> set sources \<longrightarrow> rs \<noteq> [] \<and> (\<forall>r \<in> set rs. group_ok self k r))"




text \<open>
  Statistics of runs. Thirty-two files: twenty-eight keep their single line, two keep
  one line of four and two keep three of four. Eleven files of which the last keeps one
  line of two. Eight files: six keep their single line, one keeps one line of four and
  one keeps three of four. Three files that all keep half of their lines. On the first,
  third and fourth, no operation of the binary floating-point computation rounds: the
  ratios, the mean (15/16, 7/8, 1/2), the squares, the standard deviation (3/16, 1/4, 0),
  its product by 3 and the difference are all dyadic numbers of a few bits.
\<close>

definition thirtytwo_stats :: StatsDict where
  "thirtytwo_stats =
     [(''f01.wav'', stat 1 1), (''f02.wav'', stat 1 1), (''f03.wav'', stat 1 1),
      (''f04.wav'', stat 1 1), (''f05.wav'', stat 1 1), (''f06.wav'', stat 1 1),
      (''f07.wav'', stat 1 1), (''f08.wav'', stat 1 1), (''f09.wav'', stat 1 1),
      (''f10.wav'', stat 1 1), (''f11.wav'', stat 1 1), (''f12.wav'', stat 1 1),
      (''f13.wav'', stat 1 1), (''f14.wav'', stat 1 1), (''f15.wav'', stat 1 1),
      (''f16.wav'', stat 1 1), (''f17.wav'', stat 1 1), (''f18.wav'', stat 1 1),
      (''f19.wav'', stat 1 1), (''f20.wav'', stat 1 1), (''f21.wav'', stat 1 1),
      (''f22.wav'', stat 1 1), (''f23.wav'', stat 1 1), (''f24.wav'', stat 1 1),
      (''f25.wav'', stat 1 1), (''f26.wav'', stat 1 1), (''f27.wav'', stat 1 1),
      (''f28.wav'', stat 1 1), (''f29.wav'', stat 4 1), (''f30.wav'', stat 4 1),
      (''f31.wav'', stat 4 3), (''f32.wav'', stat 4 3)]"

definition eleven_stats :: StatsDict where
  "eleven_stats =
     [(''a.wav'', stat 1 1), (''b.wav'', stat 1 1), (''c.wav'', stat 1 1),
      (''d.wav'', stat 1 1), (''e.wav'', stat 1 1), (''f.wav'', stat 1 1),
      (''g.wav'', stat 1 1), (''h.wav'', stat 1 1), (''i.wav'', stat 1 1),
      (''j.wav'', stat 1 1), (''k.wav'', stat 2 1)]"

definition eight_stats :: StatsDict where
  "eight_stats =
     [(''a.wav'', stat 1 1), (''b.wav'', stat 1 1), (''c.wav'', stat 1 1),
      (''d.wav'', stat 1 1), (''e.wav'', stat 1 1), (''f.wav'', stat 1 1),
      (''g.wav'', stat 4 1), (''h.wav'', stat 4 3)]"


text \<open>
  A mining result of twelve lines over eleven files: one line for each of ten files, and
  two lines for the last file, the second of which overlaps the first and has the better
  score. Deduplication leaves the statistics \<open>eleven_stats\<close>.
\<close>

definition eleven_table :: "(string \<times> MiningLineResult) list" where
  "eleven_table =
     [(''a'', audio_line (1/2) ''a.wav'' 0 10), (''b'', audio_line (1/2) ''b.wav'' 0 10),
      (''c'', audio_line (1/2) ''c.wav'' 0 10), (''d'', audio_line (1/2) ''d.wav'' 0 10),
      (''e'', audio_line (1/2) ''e.wav'' 0 10), (''f'', audio_line (1/2) ''f.wav'' 0 10),
      (''g'', audio_line (1/2) ''g.wav'' 0 10), (''h'', audio_line (1/2) ''h.wav'' 0 10),
      (''i'', audio_line (1/2) ''i.wav'' 0 10), (''j'', audio_line (1/2) ''j.wav'' 0 10),
      (''k1'', audio_line (1/2) ''k.wav'' 0 10), (''k2'', audio_line (9/10) ''k.wav'' 2 10)]"

definition eleven_lines :: "string list" where
  "eleven_lines = map fst eleven_table"

definition eleven_sources :: Sources where
  "eleven_sources =
     [(''a.wav'', [audio_line (1/2) ''a.wav'' 0 10]), (''b.wav'', [audio_line (1/2) ''b.wav'' 0 10]),
      (''c.wav'', [audio_line (1/2) ''c.wav'' 0 10]), (''d.wav'', [audio_line (1/2) ''d.wav'' 0 10]),
      (''e.wav'', [audio_line (1/2) ''e.wav'' 0 10]), (''f.wav'', [audio_line (1/2) ''f.wav'' 0 10]),
      (''g.wav'', [audio_line (1/2) ''g.wav'' 0 10]), (''h.wav'', [audio_line (1/2) ''h.wav'' 0 10]),
      (''i.wav'', [audio_line (1/2) ''i.wav'' 0 10]), (''j.wav'', [audio_line (1/2) ''j.wav'' 0 10]),
      (''k.wav'', [audio_line (1/2) ''k.wav'' 0 10, audio_line (9/10) ''k.wav'' 2 10])]"

definition eleven_valid :: "MiningLineResult list" where
  "eleven_valid =
     [audio_line (1/2) ''a.wav'' 0 10, audio_line (1/2) ''b.wav'' 0 10,
      audio_line (1/2) ''c.wav'' 0 10, audio_line (1/2) ''d.wav'' 0 10,
      audio_line (1/2) ''e.wav'' 0 10, audio_line (1/2) ''f.wav'' 0 10,
      audio_line (1/2) ''g.wav'' 0 10, audio_line (1/2) ''h.wav'' 0 10,
      audio_line (1/2) ''i.wav'' 0 10, audio_line (1/2) ''j.wav'' 0 10,
      audio_line (9/10) ''k.wav'' 2 10]"

section \<open>Loading: the threshold filter and the grouping invariant\<close>

lemma line_passes_audio:
  "load_input self line = AudioItem a \<Longrightarrow>
   line_passes_thresholds self line =
     Inr (score line > module_mining_threshold self \<and>
          duration a > real_of_int (module_min_audio_length self))"
  by (simp add: line_passes_thresholds_def)


lemma same_filter_refl [simp]: "same_filter a a"
  by (simp add: same_filter_def)

lemma same_filter_trans: "same_filter a b \<Longrightarrow> same_filter b c \<Longrightarrow> same_filter a c"
  by (simp add: same_filter_def)

lemma same_filter_file_lines [simp]: "same_filter self (self\<lparr>file_lines := n\<rparr>)"
  by (simp add: same_filter_def)

lemma same_filter_load_input: "same_filter a b \<Longrightarrow> load_input a m = load_input b m"
  by (simp add: same_filter_def load_input_def)

lemma same_filter_passes:
  "same_filter a b \<Longrightarrow> line_passes_thresholds a m = line_passes_thresholds b m"
  by (simp add: line_passes_thresholds_def same_filter_load_input [of a b] split: sum.splits)
     (simp add: same_filter_def)




lemma sources_ok_same_filter:
  "same_filter a b \<Longrightarrow> sources_ok a s \<Longrightarrow> sources_ok b s"
  by (simp add: sources_ok_def group_ok_def same_filter_load_input [of a b]
        same_filter_passes [of a b])

lemma map_fst_sources_add_known:
  "p \<in> set (map fst sources) \<Longrightarrow> map fst (sources_add p m sources) = map fst sources"
  by (simp add: sources_add_def case_prod_unfold comp_def)

lemma sources_ok_add:
  assumes "sources_ok self s" "group_ok self p m"
  shows "sources_ok self (sources_add p m s)"
proof (cases "p \<in> set (map fst s)")
  case True
  have d: "distinct (map fst (sources_add p m s))"
    using assms(1) True by (simp add: map_fst_sources_add_known sources_ok_def)
  have "\<forall>k rs. (k, rs) \<in> set (sources_add p m s) \<longrightarrow>
          rs \<noteq> [] \<and> (\<forall>r \<in> set rs. group_ok self k r)"
    using assms True by (fastforce simp: sources_add_def sources_ok_def split: if_splits)
  with d show ?thesis by (simp add: sources_ok_def)
next
  case False
  with assms show ?thesis
    by (auto simp: sources_add_def sources_ok_def)
qed

lemma item_path_Inr: "item_path i = Inr p \<Longrightarrow> \<exists>a. i = AudioItem a \<and> path a = p"
  by (cases i) auto

lemma load_step_same_filter:
  "load_step parse line (self, n, s) = Inr (self', n', s') \<Longrightarrow> same_filter self self'"
  by (auto simp: load_step_def Let_def split: option.splits sum.splits if_splits)

lemma load_step_sources_ok:
  assumes "load_step parse line (self, n, s) = Inr (self', n', s')" "sources_ok self s"
  shows "sources_ok self' s'"
proof -
  let ?self1 = "self\<lparr>file_lines := file_lines self + 1\<rparr>"
  have sf: "same_filter self ?self1" by simp
  from assms(1) obtain m p ok where
    m: "parse line None = Some m" and
    p: "item_path (load_input ?self1 m) = Inr p" and
    ok: "line_passes_thresholds ?self1 m = Inr ok" and
    res: "(self', n', s') = (if ok then (?self1, n + 1, sources_add p m s) else (?self1, n, s))"
    by (auto simp: load_step_def Let_def split: option.splits sum.splits if_splits)
  have s1: "sources_ok ?self1 s"
    using sources_ok_same_filter [OF sf assms(2)] .
  show ?thesis
  proof (cases ok)
    case True
    from item_path_Inr [OF p] ok True have "group_ok ?self1 p m"
      by (auto simp: group_ok_def)
    from sources_ok_add [OF s1 this] res True show ?thesis by simp
  next
    case False
    with res s1 show ?thesis by simp
  qed
qed

lemma load_loop_inv:
  "load_loop parse f (self, n, s) = Inr (self', n', s') \<Longrightarrow> sources_ok self s \<Longrightarrow>
   same_filter self self' \<and> sources_ok self' s'"
proof (induction f arbitrary: self n s)
  case Nil
  then show ?case by simp
next
  case (Cons line f)
  show ?case
  proof (cases "line = []")
    case True
    with Cons.prems show ?thesis by simp
  next
    case False
    with Cons.prems obtain self1 n1 s1 where
      st: "load_step parse line (self, n, s) = Inr (self1, n1, s1)" and
      rest: "load_loop parse f (self1, n1, s1) = Inr (self', n', s')"
      by (auto split: sum.splits)
    from Cons.IH [OF rest load_step_sources_ok [OF st Cons.prems(2)]]
      load_step_same_filter [OF st]
    show ?thesis
      by (blast intro: same_filter_trans)
  qed
qed

lemma load_file_Inr:
  assumes "load_file parse f self = Inr (self', sources)"
  shows "\<exists>line rest m a n. f = line # rest \<and> line \<noteq> [] \<and>
           parse line (sampling_factor (config self)) = Some m \<and>
           which_object_audio (src m) (tgt m) line = Inr a \<and>
           load_loop parse f (self\<lparr>file_lines := Suc (file_lines self), src_attr := a\<rparr>, 0, [])
             = Inr (self', n, sources)"
  using assms
  by (auto simp: load_file_def Let_def simp del: load_loop.simps
        split: list.splits if_splits option.splits sum.splits)

section \<open>Sorting and the scan\<close>

lemma collect_map_Inr:
  "\<forall>x \<in> set xs. f x = Inr (g x) \<Longrightarrow> collect (map f xs) = Inr (map g xs)"
  by (induction xs) auto

lemma collect_length: "collect rs = Inr vs \<Longrightarrow> length vs = length rs"
proof (induction rs arbitrary: vs)
  case Nil
  then show ?case by simp
next
  case (Cons r rs)
  then show ?case by (cases r) (auto split: sum.splits)
qed

lemma insort_key_decorate:
  "insort_key fst (f x, x) (map (\<lambda>y. (f y, y)) ys) = map (\<lambda>y. (f y, y)) (insort_key f x ys)"
  by (induction ys) auto

lemma sort_key_decorate:
  "sort_key fst (map (\<lambda>y. (f y, y)) xs) = map (\<lambda>y. (f y, y)) (sort_key f xs)"
  by (induction xs) (auto simp: insort_key_decorate)

lemma zip_map_self: "zip (map f xs) xs = map (\<lambda>y. (f y, y)) xs"
  by (induction xs) auto

lemma undecorate_sort: "map snd (sort_key fst (zip (map f xs) xs)) = sort_key f xs"
  by (simp add: zip_map_self sort_key_decorate comp_def)

lemma is_audio_the: "is_audio i \<Longrightarrow> i = AudioItem (the_audio i)"
  by (cases i) auto

lemma item_start_audio: "is_audio (load_input self x) \<Longrightarrow>
  item_start (load_input self x) = Inr (start_key self x)"
  using is_audio_the [of "load_input self x"]
  by (cases "load_input self x") (auto simp: start_key_def audio_of_def)

lemma py_sorted_audio:
  assumes "\<forall>x \<in> set xs. is_audio (load_input self x)"
  shows "py_sorted (\<lambda>x. item_start (load_input self x)) xs = Inr (sort_key (start_key self) xs)"
proof -
  have "collect (map (\<lambda>x. item_start (load_input self x)) xs) = Inr (map (start_key self) xs)"
    using assms by (intro collect_map_Inr) (simp add: item_start_audio)
  then show ?thesis
    by (simp add: py_sorted_def undecorate_sort)
qed

lemma py_sorted_mset:
  assumes "py_sorted key xs = Inr ys"
  shows "mset ys = mset xs"
proof -
  from assms obtain ks where ks: "collect (map key xs) = Inr ks"
    and ys: "ys = map snd (sort_key fst (zip ks xs))"
    by (auto simp: py_sorted_def split: sum.splits)
  from collect_length [OF ks] have "length ks = length xs" by simp
  then have "map snd (zip ks xs) = xs" by simp
  then have "mset (map snd (sort_key fst (zip ks xs))) = mset xs"
    by (metis mset_map mset_sort)
  with ys show ?thesis by simp
qed

lemma py_sorted_length: "py_sorted key xs = Inr ys \<Longrightarrow> length ys = length xs"
  using py_sorted_mset [of key xs ys] by (metis size_mset)

lemma filter_key_eq_sort:
  "filter (\<lambda>x. key k = key x) (sort_key key xs) = filter (\<lambda>x. key k = key x) xs"
proof -
  have "(\<lambda>x. key k = key x) = (\<lambda>x. key x = key k)" by auto
  then show ?thesis by (simp add: sort_key_stable)
qed

lemma stable_sorted_sort_key: "stable_sorted key xs (sort_key key xs)"
  by (simp add: stable_sorted_def filter_key_eq_sort)

lemma stable_sorted_unique: "stable_sorted key xs ys \<Longrightarrow> ys = sort_key key xs"
  unfolding stable_sorted_def
  by (intro properties_for_sort_key [symmetric]) auto

lemma module_compute_overlap_audio:
  "is_audio (load_input self k) \<Longrightarrow> is_audio (load_input self r) \<Longrightarrow>
   module_compute_overlap ov self (load_input self k) (load_input self r)
     = Inr (overlap_of ov self k r)"
  by (cases "load_input self k"; cases "load_input self r")
     (auto simp: overlap_of_def audio_of_def)

lemma dedup_step_empty: "dedup_step ov self [] r = Inr [r]"
  by (simp add: dedup_step_def)

lemma dedup_step_audio:
  assumes "kept \<noteq> []" "is_audio (load_input self (last kept))" "is_audio (load_input self r)"
  shows "dedup_step ov self kept r = Inr (butlast kept @ spec_resolve ov self (last kept) r)"
proof -
  have n: "kept ! (length kept - 1) = last kept"
    using assms(1) by (simp add: last_conv_nth)
  have u: "kept[length kept - 1 := r] = butlast kept @ [r]"
    using assms(1) by (induction kept rule: rev_induct) auto
  have a: "butlast kept @ [last kept, r] = kept @ [r]"
    using assms(1) by (metis append_Cons append_Nil append_assoc append_butlast_last_id)
  have l: "length kept \<noteq> 0"
    using assms(1) by simp
  have o: "module_compute_overlap ov self (load_input self (last kept)) (load_input self r)
             = Inr (overlap_of ov self (last kept) r)"
    using assms by (simp add: module_compute_overlap_audio)
  show ?thesis
  proof (cases "overlap_of ov self (last kept) r \<le> max_overlap (config self)")
    case True
    then show ?thesis
      unfolding dedup_step_def n u spec_resolve_def o using l a by simp
  next
    case False
    then show ?thesis
      unfolding dedup_step_def n u spec_resolve_def o using l assms(1) by simp
  qed
qed

lemma spec_resolve_set: "set (spec_resolve ov self k r) \<subseteq> {k, r}"
  by (simp add: spec_resolve_def)

lemma in_set_butlast_resolve:
  "kept \<noteq> [] \<Longrightarrow> x \<in> set (butlast kept @ spec_resolve ov self (last kept) r) \<Longrightarrow>
   x \<in> set kept \<or> x = r"
  using spec_resolve_set [of ov self "last kept" r]
  by (auto dest: in_set_butlastD)

lemma dedup_loop_audio:
  assumes "\<forall>x \<in> set kept. is_audio (load_input self x)"
    "\<forall>x \<in> set rs. is_audio (load_input self x)"
  shows "dedup_loop ov self kept rs = Inr (spec_scan ov self kept rs)"
  using assms
proof (induction rs arbitrary: kept)
  case Nil
  then show ?case by simp
next
  case (Cons r rs)
  show ?case
  proof (cases "kept = []")
    case True
    with Cons show ?thesis by (simp add: dedup_step_empty)
  next
    case False
    let ?k = "butlast kept @ spec_resolve ov self (last kept) r"
    have st: "dedup_step ov self kept r = Inr ?k"
      using False Cons.prems by (intro dedup_step_audio) auto
    have "\<forall>x \<in> set ?k. is_audio (load_input self x)"
      using in_set_butlast_resolve [OF False] Cons.prems by (metis list.set_intros(1))
    with Cons.IH [of ?k] Cons.prems have "dedup_loop ov self ?k rs = Inr (spec_scan ov self ?k rs)"
      by simp
    with st False show ?thesis by simp
  qed
qed

lemma dedup_step_length:
  "dedup_step ov self kept r = Inr k1 \<Longrightarrow> length k1 \<le> length kept + 1 \<and> (k1 \<noteq> [])"
  by (auto simp: dedup_step_def split: if_splits sum.splits)

lemma dedup_loop_length:
  "dedup_loop ov self kept rs = Inr k1 \<Longrightarrow> length k1 \<le> length kept + length rs"
proof (induction rs arbitrary: kept)
  case Nil
  then show ?case by simp
next
  case (Cons r rs)
  from Cons.prems obtain k0 where st: "dedup_step ov self kept r = Inr k0"
    and rest: "dedup_loop ov self k0 rs = Inr k1"
    by (auto split: sum.splits)
  from Cons.IH [OF rest] dedup_step_length [OF st] show ?case by simp
qed

lemma postprocess_group_stat:
  assumes "postprocess_group ov self line_list = Inr (kept, st)"
  shows "starting_lines st = length line_list \<and> kept_lines st = length kept \<and>
         kept_lines st \<le> starting_lines st"
proof -
  from assms obtain s where s: "py_sorted (\<lambda>x. item_start (load_input self x)) line_list = Inr s"
    and k: "dedup_loop ov self [] s = Inr kept"
    and st: "st = \<lparr>starting_lines = length s, kept_lines = length kept\<rparr>"
    by (auto simp: postprocess_group_def split: sum.splits)
  from py_sorted_length [OF s] dedup_loop_length [OF k] st show ?thesis by simp
qed

lemma dedup_step_prefix:
  assumes "kept \<noteq> []"
  shows "dedup_step ov self (pre @ kept) r = map_sum id ((@) pre) (dedup_step ov self kept r)"
proof -
  from assms obtain ys y where k: "kept = ys @ [y]"
    by (cases kept rule: rev_cases) auto
  have n: "(pre @ kept) ! (length (pre @ kept) - 1) = kept ! (length kept - 1)"
    unfolding k by (simp add: nth_append)
  have u: "(pre @ kept)[length (pre @ kept) - 1 := r] = pre @ kept[length kept - 1 := r]"
    unfolding k by (simp add: list_update_append)
  have l: "length (pre @ kept) \<noteq> 0" "length kept \<noteq> 0"
    using assms by simp_all
  show ?thesis
    unfolding dedup_step_def n u using l
    by (simp split: sum.splits)
qed

lemma dedup_step_nonempty: "dedup_step ov self kept r = Inr k1 \<Longrightarrow> k1 \<noteq> []"
  using dedup_step_length by blast

lemma dedup_loop_prefix:
  "kept \<noteq> [] \<Longrightarrow>
   dedup_loop ov self (pre @ kept) rs = map_sum id ((@) pre) (dedup_loop ov self kept rs)"
proof (induction rs arbitrary: kept)
  case Nil
  then show ?case by simp
next
  case (Cons r rs)
  show ?case
  proof (cases "dedup_step ov self kept r")
    case (Inl e)
    with Cons.prems show ?thesis by (simp add: dedup_step_prefix)
  next
    case (Inr k1)
    from dedup_step_nonempty [OF Inr] have "k1 \<noteq> []" .
    from Cons.IH [OF this] Inr Cons.prems show ?thesis
      by (simp add: dedup_step_prefix)
  qed
qed

lemma dedup_loop_append:
  "dedup_loop ov self kept (xs @ ys) =
     (case dedup_loop ov self kept xs of
        Inl e \<Rightarrow> Inl e
      | Inr k \<Rightarrow> dedup_loop ov self k ys)"
  by (induction xs arbitrary: kept) (auto split: sum.splits)

section \<open>The loop over the groups\<close>

lemma stats_set_new: "p \<notin> set (map fst stats) \<Longrightarrow> stats_set p st stats = stats @ [(p, st)]"
  by (simp add: stats_set_def)

lemma postprocess_loop_groups:
  assumes "distinct (map fst srcs)" "set (map fst srcs) \<inter> set (map fst stats0) = {}"
    "postprocess_loop ov self srcs (v0, stats0) = Inr (v, stats)"
  shows "\<exists>rs. list_all2 (\<lambda>g r. postprocess_group ov self (snd g) = Inr r) srcs rs \<and>
           v = v0 @ concat (map fst rs) \<and>
           stats = stats0 @ zip (map fst srcs) (map snd rs)"
  using assms
proof (induction srcs arbitrary: v0 stats0)
  case Nil
  then show ?case by simp
next
  case (Cons g srcs)
  obtain p line_list where g: "g = (p, line_list)" by (cases g)
  from Cons.prems(3) g obtain kept st where
    grp: "postprocess_group ov self line_list = Inr (kept, st)" and
    rest: "postprocess_loop ov self srcs (v0 @ kept, stats_set p st stats0) = Inr (v, stats)"
    by (auto split: sum.splits)
  have new: "stats_set p st stats0 = stats0 @ [(p, st)]"
    using Cons.prems(2) g by (intro stats_set_new) auto
  have d: "distinct (map fst srcs)"
    using Cons.prems(1) by simp
  have dj: "set (map fst srcs) \<inter> set (map fst (stats0 @ [(p, st)])) = {}"
    using Cons.prems(1,2) g by auto
  from Cons.IH [OF d dj rest [unfolded new]] obtain rs where
    rs: "list_all2 (\<lambda>g r. postprocess_group ov self (snd g) = Inr r) srcs rs"
    and v: "v = (v0 @ kept) @ concat (map fst rs)"
    and s: "stats = (stats0 @ [(p, st)]) @ zip (map fst srcs) (map snd rs)"
    by blast
  have "list_all2 (\<lambda>g r. postprocess_group ov self (snd g) = Inr r) (g # srcs) ((kept, st) # rs)"
    using rs grp g by simp
  moreover have "v = v0 @ concat (map fst ((kept, st) # rs))"
    using v by simp
  moreover have "stats = stats0 @ zip (map fst (g # srcs)) (map snd ((kept, st) # rs))"
    using s g by simp
  ultimately show ?case by blast
qed

lemma postprocess_groups:
  assumes "distinct (map fst sources)" "postprocess ov self sources = Inr (valid, stats)"
  shows "\<exists>rs. list_all2 (\<lambda>g r. postprocess_group ov self (snd g) = Inr r) sources rs \<and>
           valid = concat (map fst rs) \<and> stats = zip (map fst sources) (map snd rs)"
  using postprocess_loop_groups [of sources "[]" ov self "[]" valid stats] assms
  by (simp add: postprocess_def)

lemma group_run_function:
  assumes "group_run ov self line_list out"
  shows "postprocess_group ov self line_list = Inr out"
  using assms
proof cases
  case (group_runI sorted_list kept)
  from stable_sorted_unique [OF group_runI(3)] have s: "sorted_list = sort_key (start_key self) line_list" .
  from py_sorted_audio [OF group_runI(2)] group_runI(4) s group_runI(1)
  show ?thesis by (simp add: postprocess_group_def)
qed

lemma function_group_run:
  assumes "postprocess_group ov self line_list = Inr out"
    "\<forall>x \<in> set line_list. is_audio (load_input self x)"
  shows "group_run ov self line_list out"
proof -
  let ?s = "sort_key (start_key self) line_list"
  from assms py_sorted_audio [OF assms(2)] obtain kept where
    k: "dedup_loop ov self [] ?s = Inr kept" and
    out: "out = (kept, \<lparr>starting_lines = length ?s, kept_lines = length kept\<rparr>)"
    by (auto simp: postprocess_group_def split: sum.splits)
  from group_runI [OF assms(2) stable_sorted_sort_key k] out show ?thesis by simp
qed

lemma postprocess_run_function:
  "postprocess_run ov self sources acc out \<Longrightarrow> postprocess_loop ov self sources acc = Inr out"
proof (induction rule: postprocess_run.induct)
  case (run_done ov self acc)
  then show ?case by simp
next
  case (run_group ov self line_list kept st rest valid_audio p filtering_stats out)
  from group_run_function [OF run_group.hyps(1)] run_group.IH show ?case by simp
qed

lemma function_postprocess_run:
  "postprocess_loop ov self sources acc = Inr out \<Longrightarrow>
   \<forall>g \<in> set sources. \<forall>x \<in> set (snd g). is_audio (load_input self x) \<Longrightarrow>
   postprocess_run ov self sources acc out"
proof (induction sources arbitrary: acc)
  case Nil
  then show ?case by (simp add: run_done)
next
  case (Cons g sources)
  obtain p line_list where g: "g = (p, line_list)" by (cases g)
  obtain v0 stats0 where acc: "acc = (v0, stats0)" by (cases acc)
  from Cons.prems(1) g acc obtain kept st where
    grp: "postprocess_group ov self line_list = Inr (kept, st)" and
    rest: "postprocess_loop ov self sources (v0 @ kept, stats_set p st stats0) = Inr out"
    by (auto split: sum.splits)
  have "group_run ov self line_list (kept, st)"
    using grp Cons.prems(2) g by (intro function_group_run) auto
  moreover have "postprocess_run ov self sources (v0 @ kept, stats_set p st stats0) out"
    using rest Cons.prems(2) by (intro Cons.IH) auto
  ultimately show ?case
    unfolding g acc by (rule run_group)
qed

section \<open>The outliers in terms of the ratios\<close>

lemma kept_ratio_ok: "starting_lines st \<noteq> 0 \<Longrightarrow> kept_ratio np st = Inr (ratio np st)"
  by (simp add: ratio_def kept_ratio_def)

lemma ratios_ok:
  assumes "\<forall>(p, st) \<in> set stats. starting_lines st \<noteq> 0"
  shows "collect (map (\<lambda>(p, st). kept_ratio np st) stats)
           = Inr (map (\<lambda>(p, st). ratio np st) stats)"
  using assms by (intro collect_map_Inr) (auto simp: kept_ratio_ok)

lemma nth_filter_upt:
  "map (\<lambda>i. f (xs ! i)) (filter (\<lambda>i. P (xs ! i)) [0..<length xs]) = map f (filter P xs)"
proof (induction xs rule: rev_induct)
  case Nil
  then show ?case by simp
next
  case (snoc x xs)
  have f: "filter (\<lambda>i. P ((xs @ [x]) ! i)) [0..<length xs] = filter (\<lambda>i. P (xs ! i)) [0..<length xs]"
    by (intro filter_cong) (auto simp: nth_append)
  have m: "map (\<lambda>i. f ((xs @ [x]) ! i)) (filter (\<lambda>i. P (xs ! i)) [0..<length xs])
         = map (\<lambda>i. f (xs ! i)) (filter (\<lambda>i. P (xs ! i)) [0..<length xs])"
    by (intro map_cong) (auto simp: nth_append)
  show ?case
    using snoc by (simp add: f m)
qed

lemma argwhere_rows:
  "map hd (np_argwhere (map P xs)) = filter (\<lambda>i. P (xs ! i)) [0..<length xs]"
proof -
  have "filter (\<lambda>i. map P xs ! i) [0..<length xs] = filter (\<lambda>i. P (xs ! i)) [0..<length xs]"
    by (intro filter_cong) auto
  then show ?thesis by (simp add: np_argwhere_def comp_def)
qed

lemma paths_of_rows:
  "map (\<lambda>i. map fst stats ! i) (filter (\<lambda>i. P (map g stats ! i)) [0..<length stats])
   = map fst (filter (\<lambda>x. P (g x)) stats)"
proof -
  have "map (\<lambda>i. map fst stats ! i) (filter (\<lambda>i. P (map g stats ! i)) [0..<length stats])
      = map (\<lambda>i. fst (stats ! i)) (filter (\<lambda>i. P (g (stats ! i))) [0..<length stats])"
    by (intro map_cong filter_cong) auto
  also have "\<dots> = map fst (filter (\<lambda>x. P (g x)) stats)"
    by (rule nth_filter_upt [of fst stats "\<lambda>x. P (g x)"])
  finally show ?thesis .
qed

lemma below_sigs_of_cases:
  assumes "\<forall>(p, st) \<in> set stats. starting_lines st \<noteq> 0"
  shows "below_sigs_of np stats =
     (if length (spec_outliers np sigmas stats) = 1 then Inl IterationOver0dError
      else Inr (spec_outliers np sigmas stats))"
proof -
  let ?rs = "map (\<lambda>(p, st). ratio np st) stats"
  let ?P = "\<lambda>r. r < fl_sub np (fl_mean np ?rs) (fl_mul np sigmas (fl_std np ?rs))"
  let ?rows = "np_argwhere (map ?P ?rs)"
  have out: "spec_outliers np sigmas stats
      = map fst (filter (\<lambda>x. ?P ((\<lambda>(p, st). ratio np st) x)) stats)"
    by (simp add: spec_outliers_def Let_def case_prod_unfold)
  have rows: "map (\<lambda>i. map fst stats ! i) (map hd ?rows) = spec_outliers np sigmas stats"
    unfolding argwhere_rows out
    using paths_of_rows [of stats ?P "\<lambda>(p, st). ratio np st"] by simp
  have len: "length ?rows = length (spec_outliers np sigmas stats)"
    using rows by (metis length_map)
  show ?thesis
    using rows len
    by (simp add: below_sigs_of_def ratios_ok [OF assms] Let_def squeeze_def)
qed

lemma ratio_exact: "ratio exact_arith st = exact_ratio st"
  by (simp add: ratio_def exact_arith_def exact_ratio_def)

lemma spec_outliers_exact: "spec_outliers exact_arith k stats = exact_outliers k stats"
  by (simp add: spec_outliers_def exact_outliers_def ratio_exact Let_def)
     (simp add: exact_arith_def)

lemma below_sigs_of_exact:
  assumes "\<forall>(p, st) \<in> set stats. starting_lines st \<noteq> 0"
  shows "below_sigs_of exact_arith stats =
     (if length (exact_outliers sigmas stats) = 1 then Inl IterationOver0dError
      else Inr (exact_outliers sigmas stats))"
  using below_sigs_of_cases [OF assms, of exact_arith] by (simp add: spec_outliers_exact)

section \<open>Mean and standard deviation\<close>

lemma below_threshold_iff:
  fixes r m k v :: real
  assumes "0 \<le> v" "0 \<le> k"
  shows "r < m - k * sqrt v \<longleftrightarrow> r < m \<and> k\<^sup>2 * v < (m - r)\<^sup>2"
proof -
  have ks: "k * sqrt v = sqrt (k\<^sup>2 * v)"
    using assms by (simp add: real_sqrt_mult)
  have nn: "0 \<le> sqrt (k\<^sup>2 * v)"
    using assms by simp
  show ?thesis
  proof (cases "r < m")
    case True
    then have pos: "0 \<le> m - r" by simp
    have "sqrt (k\<^sup>2 * v) < m - r \<longleftrightarrow> k\<^sup>2 * v < (m - r)\<^sup>2"
    proof
      assume "sqrt (k\<^sup>2 * v) < m - r"
      then have "sqrt (k\<^sup>2 * v) < sqrt ((m - r)\<^sup>2)" using pos by simp
      then show "k\<^sup>2 * v < (m - r)\<^sup>2" by (simp only: real_sqrt_less_iff)
    next
      assume "k\<^sup>2 * v < (m - r)\<^sup>2"
      from real_less_lsqrt [OF pos this] show "sqrt (k\<^sup>2 * v) < m - r" .
    qed
    with True show ?thesis unfolding ks by auto
  next
    case False
    from nn False have "\<not> r < m - sqrt (k\<^sup>2 * v)" by linarith
    with False show ?thesis unfolding ks by blast
  qed
qed

lemma variance_nonneg: "0 \<le> exact_mean (map (\<lambda>x. \<bar>x - m\<bar> ^ 2) xs)"
  unfolding exact_mean_def
  by (intro divide_nonneg_nonneg sum_list_nonneg) auto



lemma exact_outliers_filter:
  "exact_outliers k stats =
     map fst (filter (\<lambda>x. exact_ratio (snd x) < exact_mean (map (\<lambda>x. exact_ratio (snd x)) stats)
                - k * exact_std (map (\<lambda>x. exact_ratio (snd x)) stats)) stats)"
  by (simp add: exact_outliers_def Let_def case_prod_unfold)

lemma exact_outliers_squares:
  assumes "0 \<le> k"
  shows "exact_outliers k stats =
     (let rs = map (\<lambda>x. exact_ratio (snd x)) stats; m = exact_mean rs;
          v = exact_mean (map (\<lambda>x. \<bar>x - m\<bar> ^ 2) rs)
      in map fst (filter (\<lambda>x. exact_ratio (snd x) < m \<and> k\<^sup>2 * v < (m - exact_ratio (snd x))\<^sup>2) stats))"
  unfolding exact_outliers_filter Let_def exact_std_def
  by (simp only: below_threshold_iff [OF variance_nonneg assms])

lemma eleven_ratios: "map (\<lambda>x. exact_ratio (snd x)) eleven_stats = [1,1,1,1,1,1,1,1,1,1,1/2]"
  by (simp add: eleven_stats_def stat_def exact_ratio_def)

lemma eleven_outliers: "exact_outliers 3 eleven_stats = [''k.wav'']"
  unfolding exact_outliers_squares [of 3 eleven_stats, simplified] eleven_ratios
  by (simp add: exact_mean_def Let_def eleven_stats_def stat_def exact_ratio_def power2_eq_square)

lemma eleven_starting: "\<forall>(p, st) \<in> set eleven_stats. starting_lines st \<noteq> 0"
  by (simp add: eleven_stats_def stat_def)

section \<open>Loading under another configuration\<close>

lemma load_input_config [simp]: "load_input (self\<lparr>config := c\<rparr>) m = load_input self m"
  by (simp add: load_input_def)

lemma line_passes_config [simp]:
  "line_passes_thresholds (self\<lparr>config := c\<rparr>) m = line_passes_thresholds self m"
  by (simp add: line_passes_thresholds_def split: sum.splits)





section \<open>Deduplication under another configuration\<close>














section \<open>Decoded records and the errors of loading\<close>

















section \<open>The sample run\<close>

lemmas sample_defs = sample_config_def sample_table_def sample_lines_def sample_sources_def
  sample_valid_def sample_stats_def audio_line_def text_line_def table_parser_def stat_def
  init_def

lemma sample_load:
  "load_file (table_parser sample_table) sample_lines (init sample_config)
     = Inr ((init sample_config)\<lparr>file_lines := 6\<rparr>, sample_sources)"
  by (simp add: sample_defs load_file_def load_step_def Let_def load_input_def
        line_passes_thresholds_def sources_add_def)

lemma sample_postprocess:
  "postprocess fraction_overlap (init sample_config) sample_sources
     = Inr (sample_valid, sample_stats)"
  by (simp add: sample_defs postprocess_def postprocess_group_def py_sorted_def load_input_def
        dedup_step_def fraction_overlap_def Let_def stats_set_def)

lemma sample_audio:
  "\<forall>g \<in> set sample_sources. \<forall>x \<in> set (snd g). is_audio (load_input (init sample_config) x)"
  by (simp add: sample_defs load_input_def)

lemma eleven_load:
  "load_file (table_parser eleven_table) eleven_lines (init sample_config)
     = Inr ((init sample_config)\<lparr>file_lines := 13\<rparr>, eleven_sources)"
  by (simp add: eleven_table_def eleven_lines_def eleven_sources_def sample_config_def
        audio_line_def table_parser_def init_def load_file_def load_step_def Let_def
        load_input_def line_passes_thresholds_def sources_add_def)

lemma eleven_postprocess:
  "postprocess fraction_overlap ((init sample_config)\<lparr>file_lines := 13\<rparr>) eleven_sources
     = Inr (eleven_valid, eleven_stats)"
  by (simp add: eleven_sources_def eleven_valid_def eleven_stats_def sample_config_def
        audio_line_def stat_def init_def postprocess_def postprocess_group_def py_sorted_def
        load_input_def dedup_step_def fraction_overlap_def Let_def stats_set_def)

lemma eleven_below: "below_sigs_of exact_arith eleven_stats = Inl IterationOver0dError"
  using below_sigs_of_exact [OF eleven_starting] eleven_outliers by (simp add: sigmas_def)

section \<open>Arithmetic with rounding\<close>

lemma accurate_exact: "0 \<le> eps \<Longrightarrow> accurate_at exact_arith eps rs"
  by (simp add: accurate_at_def exact_arith_def)



lemma eleven_std_bounds:
  "143/1000 < exact_std [1,1,1,1,1,1,1,1,1,1,1/2]" "exact_std [1,1,1,1,1,1,1,1,1,1,1/2] < 144/1000"
proof -
  have v: "exact_mean (map (\<lambda>x. \<bar>x - exact_mean [1,1,1,1,1,1,1,1,1,1,1/2]\<bar> ^ 2)
      [1,1,1,1,1,1,1,1,1,1,1/2]) = 5/242"
    by (simp add: exact_mean_def power2_eq_square)
  show "143/1000 < exact_std [1,1,1,1,1,1,1,1,1,1,1/2]"
    unfolding exact_std_def v by (rule real_less_rsqrt) (simp add: power2_eq_square)
  show "exact_std [1,1,1,1,1,1,1,1,1,1,1/2] < 144/1000"
    unfolding exact_std_def v by (rule real_less_lsqrt) (simp_all add: power2_eq_square)
qed

lemma eleven_threshold_bounds:
  assumes "accurate_at np (1/1000) [1,1,1,1,1,1,1,1,1,1,1/2]"
  shows "1/2 < fl_sub np (fl_mean np [1,1,1,1,1,1,1,1,1,1,1/2])
                 (fl_mul np sigmas (fl_std np [1,1,1,1,1,1,1,1,1,1,1/2]))"
    "fl_sub np (fl_mean np [1,1,1,1,1,1,1,1,1,1,1/2])
                 (fl_mul np sigmas (fl_std np [1,1,1,1,1,1,1,1,1,1,1/2])) < 1"
proof -
  let ?rs = "[1,1,1,1,1,1,1,1,1,1,1/2] :: real list"
  have m: "exact_mean ?rs = 21/22"
    by (simp add: exact_mean_def)
  from assms have
    a1: "\<bar>fl_mean np ?rs - 21/22\<bar> \<le> 1/1000" and
    a2: "\<bar>fl_std np ?rs - exact_std ?rs\<bar> \<le> 1/1000" and
    a3: "\<bar>fl_mul np sigmas (fl_std np ?rs) - 3 * fl_std np ?rs\<bar> \<le> 1/1000" and
    a4: "\<bar>fl_sub np (fl_mean np ?rs) (fl_mul np sigmas (fl_std np ?rs))
        - (fl_mean np ?rs - fl_mul np sigmas (fl_std np ?rs))\<bar> \<le> 1/1000"
    by (simp_all add: accurate_at_def m sigmas_def)
  from a1 a2 a3 a4 eleven_std_bounds
  show "1/2 < fl_sub np (fl_mean np ?rs) (fl_mul np sigmas (fl_std np ?rs))"
    by linarith
  from a1 a2 a3 a4 eleven_std_bounds
  show "fl_sub np (fl_mean np ?rs) (fl_mul np sigmas (fl_std np ?rs)) < 1"
    by linarith
qed

lemma eleven_float_ratios:
  assumes "fl_div np 1 1 = 1" "fl_div np 1 2 = 1/2"
  shows "map (\<lambda>(p, st). ratio np st) eleven_stats = [1,1,1,1,1,1,1,1,1,1,1/2]"
  using assms by (simp add: eleven_stats_def stat_def ratio_def)

lemma eleven_outliers_robust:
  assumes "fl_div np 1 1 = 1" "fl_div np 1 2 = 1/2"
    "accurate_at np (1/1000) [1,1,1,1,1,1,1,1,1,1,1/2]"
  shows "spec_outliers np sigmas eleven_stats = [''k.wav'']"
  unfolding spec_outliers_def Let_def eleven_float_ratios [OF assms(1,2)]
  using eleven_threshold_bounds [OF assms(3)] assms(1,2)
  by (simp add: eleven_stats_def stat_def ratio_def)

lemma eleven_below_robust:
  assumes "fl_div np 1 1 = 1" "fl_div np 1 2 = 1/2"
    "accurate_at np (1/1000) [1,1,1,1,1,1,1,1,1,1,1/2]"
  shows "below_sigs_of np eleven_stats = Inl IterationOver0dError"
  using below_sigs_of_cases [OF eleven_starting, of np] eleven_outliers_robust [OF assms]
  by simp

lemma eight_ratios: "map (\<lambda>x. exact_ratio (snd x)) eight_stats = [1,1,1,1,1,1,1/4,3/4]"
  by (simp add: eight_stats_def stat_def exact_ratio_def)

lemma eight_std:
  "exact_mean [1,1,1,1,1,1,1/4,3/4] = 7/8" "exact_std [1,1,1,1,1,1,1/4,3/4] = 1/4"
proof -
  show m: "exact_mean [1,1,1,1,1,1,1/4,3/4] = 7/8"
    by (simp add: exact_mean_def)
  have "exact_mean (map (\<lambda>x. \<bar>x - 7/8\<bar> ^ 2) [1,1,1,1,1,1,1/4,3/4]) = (1/4)\<^sup>2"
    by (simp add: exact_mean_def power2_eq_square)
  then show "exact_std [1,1,1,1,1,1,1/4,3/4] = 1/4"
    unfolding exact_std_def m by simp
qed

lemma eight_outliers_3: "exact_outliers 3 eight_stats = []"
  unfolding exact_outliers_filter eight_ratios eight_std
  by (simp add: eight_stats_def stat_def exact_ratio_def)

lemma eight_outliers_1: "exact_outliers 1 eight_stats = [''g.wav'']"
  unfolding exact_outliers_filter eight_ratios eight_std
  by (simp add: eight_stats_def stat_def exact_ratio_def)

lemma eight_starting: "\<forall>(p, st) \<in> set eight_stats. starting_lines st \<noteq> 0"
  by (simp add: eight_stats_def stat_def)

lemma thirtytwo_ratios:
  "map (\<lambda>x. exact_ratio (snd x)) thirtytwo_stats = replicate 28 1 @ [1/4, 1/4, 3/4, 3/4]"
  by (simp add: thirtytwo_stats_def stat_def exact_ratio_def eval_nat_numeral)

lemma thirtytwo_std:
  "exact_mean (replicate 28 1 @ [1/4, 1/4, 3/4, 3/4]) = 15/16"
  "exact_std (replicate 28 1 @ [1/4, 1/4, 3/4, 3/4]) = 3/16"
proof -
  show m: "exact_mean (replicate 28 1 @ [1/4, 1/4, 3/4, 3/4]) = 15/16"
    by (simp add: exact_mean_def sum_list_replicate)
  have "exact_mean (map (\<lambda>x. \<bar>x - 15/16\<bar> ^ 2) (replicate 28 1 @ [1/4, 1/4, 3/4, 3/4]))
      = (3/16)\<^sup>2"
    by (simp add: exact_mean_def power2_eq_square sum_list_replicate)
  then show "exact_std (replicate 28 1 @ [1/4, 1/4, 3/4, 3/4]) = 3/16"
    unfolding exact_std_def m by simp
qed

lemma thirtytwo_outliers: "exact_outliers 3 thirtytwo_stats = [''f29.wav'', ''f30.wav'']"
  unfolding exact_outliers_filter thirtytwo_ratios thirtytwo_std
  by (simp add: thirtytwo_stats_def stat_def exact_ratio_def)

lemma thirtytwo_starting: "\<forall>(p, st) \<in> set thirtytwo_stats. starting_lines st \<noteq> 0"
  by (simp add: thirtytwo_stats_def stat_def)

section \<open>A record without audio item after the first line\<close>






section \<open>The claims\<close>

text \<open>
  Claim C1. For a group whose loaded items are all audio, the deduplicator sorts the
  records on the start offset of the audio item by a stable sort (ascending, ties in
  input order) and scans the sorted list once. The kept list it builds is the one of
  \<open>spec_scan\<close>: the first record is kept; a later record \<open>r\<close> is appended when its
  overlap with the last kept record is at most \<open>max_overlap\<close>; above \<open>max_overlap\<close>
  it replaces the last kept record exactly when that one has the strictly lower score,
  and is left out otherwise. The statistics are the lengths of the input and of the
  kept list. Only the last kept record is read: the records kept before it come out of
  the rest of the scan unchanged, whatever follows. The scan is one pass: after a part
  of the list, it goes on from the kept list alone.
\<close>

theorem dedup_follows_spec:
  assumes "\<forall>x \<in> set line_list. is_audio (load_input self x)"
  shows "py_sorted (\<lambda>x. item_start (load_input self x)) line_list
           = Inr (sort_key (start_key self) line_list) \<and>
         stable_sorted (start_key self) line_list (sort_key (start_key self) line_list) \<and>
         dedup_loop ov self [] (sort_key (start_key self) line_list)
           = Inr (spec_scan ov self [] (sort_key (start_key self) line_list)) \<and>
         postprocess_group ov self line_list
           = Inr (spec_scan ov self [] (sort_key (start_key self) line_list),
                  \<lparr>starting_lines = length line_list,
                   kept_lines = length (spec_scan ov self [] (sort_key (start_key self) line_list))\<rparr>) \<and>
         (\<forall>pre kept rs. kept \<noteq> [] \<longrightarrow>
            dedup_loop ov self (pre @ kept) rs
              = map_sum id ((@) pre) (dedup_loop ov self kept rs)) \<and>
         (\<forall>kept xs ys.
            dedup_loop ov self kept (xs @ ys)
              = (case dedup_loop ov self kept xs of
                   Inl e \<Rightarrow> Inl e
                 | Inr k \<Rightarrow> dedup_loop ov self k ys))"
proof -
  let ?s = "sort_key (start_key self) line_list"
  have s: "py_sorted (\<lambda>x. item_start (load_input self x)) line_list = Inr ?s"
    using assms by (rule py_sorted_audio)
  have a: "\<forall>x \<in> set ?s. is_audio (load_input self x)"
    using assms by simp
  have l: "dedup_loop ov self [] ?s = Inr (spec_scan ov self [] ?s)"
    using a by (intro dedup_loop_audio) simp_all
  have g: "postprocess_group ov self line_list
           = Inr (spec_scan ov self [] ?s,
                  \<lparr>starting_lines = length line_list,
                   kept_lines = length (spec_scan ov self [] ?s)\<rparr>)"
    by (simp add: postprocess_group_def s l)
  from s stable_sorted_sort_key l g dedup_loop_prefix dedup_loop_append show ?thesis
    by blast
qed

theorem dedup_follows_spec_witness:
  "list_all (\<lambda>x. is_audio (load_input (init sample_config) x))
     [audio_line (4/5) ''a.wav'' 12 6, audio_line (1/2) ''a.wav'' 0 20,
      audio_line (9/10) ''a.wav'' 5 5] \<and>
   postprocess_group fraction_overlap (init sample_config)
     [audio_line (4/5) ''a.wav'' 12 6, audio_line (1/2) ''a.wav'' 0 20,
      audio_line (9/10) ''a.wav'' 5 5]
   = Inr ([audio_line (9/10) ''a.wav'' 5 5, audio_line (4/5) ''a.wav'' 12 6], stat 3 2)"
proof -
  have h: "\<forall>x \<in> set [audio_line (4/5) ''a.wav'' 12 6, audio_line (1/2) ''a.wav'' 0 20,
               audio_line (9/10) ''a.wav'' 5 5].
      is_audio (load_input (init sample_config) x)"
    by (simp add: sample_defs load_input_def)
  from dedup_follows_spec [OF h, of fraction_overlap] h show ?thesis
    by (simp add: sample_defs load_input_def start_key_def audio_of_def spec_resolve_def
          overlap_of_def fraction_overlap_def Let_def)
qed

text \<open>
  Claim C2. Computing the outlier paths is claimed never to fail. The mining result
  \<open>eleven_lines\<close> gives the statistics of eleven files, ten with ratio 1 and one
  with ratio 1/2. The exact mean is 21/22 and the exact standard deviation is between
  0.143 and 0.144, so the threshold is 0.523 and only the ratio 1/2 is below it. The
  same holds in every arithmetic that computes the two quotients 1/1 and 1/2 exactly and
  is accurate to a thousandth on these ratios, binary floating point among them:
  \<open>squeeze\<close> yields a 0-d array, the iteration over it raises and the run fails.
\<close>

theorem single_outlier_raises:
  "(run exact_arith (table_parser eleven_table) fraction_overlap eleven_lines
      (init sample_config) = Inl IterationOver0dError \<and>
    below_sigs_of exact_arith eleven_stats = Inl IterationOver0dError) \<and>
   (fl_div np 1 1 = 1 \<and> fl_div np 1 2 = 1/2 \<and>
    accurate_at np (1/1000) [1,1,1,1,1,1,1,1,1,1,1/2] \<longrightarrow>
      run np (table_parser eleven_table) fraction_overlap eleven_lines (init sample_config)
        = Inl IterationOver0dError \<and>
      below_sigs_of np eleven_stats = Inl IterationOver0dError)"
proof (intro conjI impI)
  show "run exact_arith (table_parser eleven_table) fraction_overlap eleven_lines
      (init sample_config) = Inl IterationOver0dError"
    by (simp add: run_def eleven_load eleven_postprocess eleven_below)
  show "below_sigs_of exact_arith eleven_stats = Inl IterationOver0dError"
    by (rule eleven_below)
next
  assume a: "fl_div np 1 1 = 1 \<and> fl_div np 1 2 = 1/2 \<and>
    accurate_at np (1/1000) [1,1,1,1,1,1,1,1,1,1,1/2]"
  then have b: "below_sigs_of np eleven_stats = Inl IterationOver0dError"
    using eleven_below_robust [of np] by blast
  then show "run np (table_parser eleven_table) fraction_overlap eleven_lines
      (init sample_config) = Inl IterationOver0dError"
    by (simp add: run_def eleven_load eleven_postprocess)
  from b show "below_sigs_of np eleven_stats = Inl IterationOver0dError" .
qed

theorem single_outlier_raises_witness:
  "fl_div exact_arith 1 1 = 1 \<and> fl_div exact_arith 1 2 = 1/2 \<and>
   accurate_at exact_arith (1/1000) [1,1,1,1,1,1,1,1,1,1,1/2] \<and>
   run exact_arith (table_parser eleven_table) fraction_overlap eleven_lines (init sample_config)
     = Inl IterationOver0dError"
proof -
  have h1: "fl_div exact_arith 1 1 = 1" by (simp add: exact_arith_def)
  have h2: "fl_div exact_arith 1 2 = 1/2" by (simp add: exact_arith_def)
  have h3: "accurate_at exact_arith (1/1000) [1,1,1,1,1,1,1,1,1,1,1/2]"
    by (rule accurate_exact) simp
  from single_outlier_raises [of exact_arith] h1 h2 h3 show ?thesis by blast
qed

text \<open>
  Claim C3, as amended. The multiplier is the constant 3 of \<open>run\<close>, not a field of the
  configuration. In whatever arithmetic the run computes, when every group has a
  starting line and the number of paths whose computed ratio is strictly below the
  computed value of \<open>avg - 3 * std\<close> is not exactly one, the flagged paths are exactly
  those paths, in the order of the dictionary.
\<close>

theorem outliers_three_sigma:
  assumes "\<forall>(p, st) \<in> set stats. starting_lines st \<noteq> 0"
    "length (spec_outliers np 3 stats) \<noteq> 1"
  shows "sigmas = 3 \<and> below_sigs_of np stats = Inr (spec_outliers np 3 stats)"
  using below_sigs_of_cases [OF assms(1), of np] assms(2) by (simp add: sigmas_def)

theorem outliers_three_sigma_witness:
  "list_all (\<lambda>(p, st). starting_lines st \<noteq> 0) thirtytwo_stats \<and>
   length (spec_outliers exact_arith 3 thirtytwo_stats) \<noteq> 1 \<and>
   below_sigs_of exact_arith thirtytwo_stats = Inr [''f29.wav'', ''f30.wav'']"
proof -
  have n: "length (spec_outliers exact_arith 3 thirtytwo_stats) \<noteq> 1"
    by (simp add: spec_outliers_exact thirtytwo_outliers)
  from outliers_three_sigma [OF thirtytwo_starting n] thirtytwo_starting n show ?thesis
    by (simp add: spec_outliers_exact thirtytwo_outliers list_all_iff)
qed

text \<open>
  The claim as stated fails: with a configured multiplier of 1 the file \<open>g.wav\<close> of
  \<open>eight_stats\<close> (ratio 1/4, mean 7/8, standard deviation 1/4) is below the mean minus
  one standard deviation, and it is not flagged. No operation rounds on this input.
\<close>

theorem multiplier_not_configurable:
  "spec_outliers exact_arith 1 eight_stats = [''g.wav''] \<and>
   below_sigs_of exact_arith eight_stats = Inr [] \<and>
   below_sigs_of exact_arith eight_stats \<noteq> Inr (spec_outliers exact_arith 1 eight_stats)"
  using below_sigs_of_exact [OF eight_starting] eight_outliers_3 eight_outliers_1
  by (simp add: sigmas_def spec_outliers_exact)




text \<open>
  Claim C5. A record whose loaded item is an audio span passes the threshold filter if
  and only if its score is strictly above the score threshold and the duration of the
  audio span is strictly above the minimal length; a record whose score equals the
  threshold, or whose duration equals the minimal length, is rejected.
\<close>

theorem threshold_filter_strict:
  assumes "load_input self line = AudioItem a"
  shows "line_passes_thresholds self line =
           Inr (score line > module_mining_threshold self \<and>
                duration a > real_of_int (module_min_audio_length self)) \<and>
         (score line = module_mining_threshold self \<longrightarrow>
            line_passes_thresholds self line = Inr False) \<and>
         (duration a = real_of_int (module_min_audio_length self) \<longrightarrow>
            line_passes_thresholds self line = Inr False)"
  using line_passes_audio [OF assms] by simp

theorem threshold_filter_strict_witness:
  "load_input (init sample_config) (audio_line 0 ''a.wav'' 0 20)
     = AudioItem \<lparr>path = ''a.wav'', start = 0, duration = 20\<rparr> \<and>
   line_passes_thresholds (init sample_config) (audio_line 0 ''a.wav'' 0 20) = Inr False \<and>
   module_mining_threshold (init sample_config) = mining_threshold sample_config \<and>
   module_min_audio_length (init sample_config) = min_audio_length sample_config"
proof -
  have h: "load_input (init sample_config) (audio_line 0 ''a.wav'' 0 20)
     = AudioItem \<lparr>path = ''a.wav'', start = 0, duration = 20\<rparr>"
    by (simp add: sample_defs load_input_def)
  from threshold_filter_strict [OF h] h show ?thesis
    by (simp add: sample_defs)
qed

text \<open>
  Claim C6. For a dictionary with distinct keys, the statistics have one entry for each
  group, in the same order; the entry of a group holds the length of the group as
  \<open>starting_lines\<close> and the length of the kept list returned for the group as
  \<open>kept_lines\<close>, and \<open>kept_lines\<close> is at most \<open>starting_lines\<close>.
\<close>

theorem retained_at_most_started:
  assumes "postprocess ov self sources = Inr (valid, stats)" "distinct (map fst sources)"
  shows "map fst stats = map fst sources \<and>
         (\<forall>i < length sources. \<exists>kept.
            postprocess_group ov self (snd (sources ! i)) = Inr (kept, snd (stats ! i)) \<and>
            starting_lines (snd (stats ! i)) = length (snd (sources ! i)) \<and>
            kept_lines (snd (stats ! i)) = length kept \<and>
            kept_lines (snd (stats ! i)) \<le> starting_lines (snd (stats ! i)))"
proof -
  from postprocess_groups [OF assms(2,1)] obtain rs where
    rs: "list_all2 (\<lambda>g r. postprocess_group ov self (snd g) = Inr r) sources rs"
    and st: "stats = zip (map fst sources) (map snd rs)"
    by blast
  from rs have len: "length rs = length sources"
    by (simp add: list_all2_lengthD)
  have keys: "map fst stats = map fst sources"
    using st len by simp
  have "\<exists>kept. postprocess_group ov self (snd (sources ! i)) = Inr (kept, snd (stats ! i)) \<and>
            starting_lines (snd (stats ! i)) = length (snd (sources ! i)) \<and>
            kept_lines (snd (stats ! i)) = length kept \<and>
            kept_lines (snd (stats ! i)) \<le> starting_lines (snd (stats ! i))"
    if i: "i < length sources" for i
  proof -
    from rs i have g: "postprocess_group ov self (snd (sources ! i)) = Inr (rs ! i)"
      by (simp add: list_all2_conv_all_nth)
    have s: "snd (stats ! i) = snd (rs ! i)"
      using st len i by simp
    from g have g': "postprocess_group ov self (snd (sources ! i))
        = Inr (fst (rs ! i), snd (stats ! i))"
      by (simp add: s)
    from postprocess_group_stat [OF g'] g' show ?thesis by blast
  qed
  with keys show ?thesis by blast
qed

theorem retained_at_most_started_witness:
  "postprocess fraction_overlap (init sample_config) sample_sources
     = Inr (sample_valid, sample_stats) \<and>
   distinct (map fst sample_sources) \<and>
   map fst sample_stats = map fst sample_sources \<and>
   kept_lines (snd (sample_stats ! 0)) \<le> starting_lines (snd (sample_stats ! 0)) \<and>
   kept_lines (snd (sample_stats ! 1)) \<le> starting_lines (snd (sample_stats ! 1))"
proof -
  have d: "distinct (map fst sample_sources)"
    by (simp add: sample_sources_def)
  have l: "0 < length sample_sources" "1 < length sample_sources"
    by (simp_all add: sample_sources_def)
  from retained_at_most_started [OF sample_postprocess d] sample_postprocess d l
  show ?thesis by blast
qed

text \<open>
  Claim C7. The deduplicator is deterministic: two runs on the same dictionary with the
  same module state, each free to use any stable sort, end with the same kept records
  (contents and order) and the same statistics, which are the ones \<open>postprocess\<close>
  computes.
\<close>

theorem dedup_deterministic:
  assumes "postprocess_run ov self sources ([], []) out1"
    "postprocess_run ov self sources ([], []) out2"
  shows "out1 = out2 \<and> postprocess ov self sources = Inr out1"
  using postprocess_run_function [OF assms(1)] postprocess_run_function [OF assms(2)]
  by (simp add: postprocess_def)

theorem dedup_deterministic_witness:
  "postprocess_run fraction_overlap (init sample_config) sample_sources ([], [])
     (sample_valid, sample_stats) \<and>
   postprocess fraction_overlap (init sample_config) sample_sources
     = Inr (sample_valid, sample_stats)"
proof -
  have r: "postprocess_run fraction_overlap (init sample_config) sample_sources ([], [])
     (sample_valid, sample_stats)"
    using sample_postprocess [unfolded postprocess_def] sample_audio
    by (rule function_postprocess_run)
  from dedup_deterministic [OF r r] r show ?thesis by simp
qed



text \<open>
  Claim C9. After loading, the keys of the dictionary are distinct, no group is empty,
  and every record stored under a key has, as its loaded item, an audio span whose path
  is the key, and passes the threshold filter.
\<close>

theorem load_file_groups:
  assumes "load_file parse f self = Inr (self', sources)"
  shows "distinct (map fst sources) \<and>
         (\<forall>(k, rs) \<in> set sources. rs \<noteq> [] \<and>
            (\<forall>r \<in> set rs. (\<exists>a. load_input self' r = AudioItem a \<and> path a = k) \<and>
                            line_passes_thresholds self' r = Inr True))"
proof -
  from load_file_Inr [OF assms] obtain a n where
    l: "load_loop parse f (self\<lparr>file_lines := Suc (file_lines self), src_attr := a\<rparr>, 0, [])
          = Inr (self', n, sources)"
    by blast
  have "sources_ok (self\<lparr>file_lines := Suc (file_lines self), src_attr := a\<rparr>) []"
    by (simp add: sources_ok_def)
  from load_loop_inv [OF l this] show ?thesis
    by (auto simp: sources_ok_def group_ok_def)
qed

theorem load_file_groups_witness:
  "load_file (table_parser sample_table) sample_lines (init sample_config)
     = Inr ((init sample_config)\<lparr>file_lines := 6\<rparr>, sample_sources) \<and>
   distinct (map fst sample_sources) \<and>
   list_all (\<lambda>(k, rs). rs \<noteq> [] \<and>
      list_all (\<lambda>r.
         (\<exists>a. load_input ((init sample_config)\<lparr>file_lines := 6\<rparr>) r = AudioItem a \<and> path a = k) \<and>
         line_passes_thresholds ((init sample_config)\<lparr>file_lines := 6\<rparr>) r = Inr True) rs)
     sample_sources"
  using load_file_groups [OF sample_load] sample_load by (simp add: list_all_iff)




end
